theory Spec2Isabelle
  imports Main
begin

section \<open>The read syncer of the Urkel tree (go/storage/mkvs/urkel/sync.go)\<close>

text \<open>
  The file sync.go holds \<open>GetSubtree\<close>, \<open>doGetSubtree\<close>, \<open>GetPath\<close>, \<open>doGetPath\<close> and
  \<open>GetNode\<close>.  They are embedded below line by line.  The packages \<open>node\<close> and \<open>syncer\<close>
  and the cache of the tree are not part of the sources at hand; what sync.go uses of
  them is modelled from the specification, each such definition being marked.

  Mutation is explicit: every operation takes the cache and returns it, and the
  recursions take the proof under construction and return it.  The lock taken by the
  three entry points is not modelled (one call is one function application).
\<close>

subsection \<open>Keys\<close>

text \<open>
  Modelled from the spec: package \<open>node\<close>, type \<open>Key\<close> is missing.  A key is "an
  ordered bit sequence" whose bit length is tracked; it is a list of bits here, most
  significant bit of the first byte first.  \<open>Depth\<close> (a bit position or a recursion depth)
  is an unsigned integer whose width is not visible in the sources; it is a natural
  number here.
\<close>

type_synonym key = "bool list"
type_synonym bytes = string
type_synonym hash = string

text \<open>
  The errors.  \<open>ErrInvalidRoot\<close>, \<open>ErrDirtyRoot\<close> and \<open>ErrNodeNotFound\<close> are the errors of
  package \<open>syncer\<close> that sync.go returns; \<open>ErrCanceled\<close> and \<open>ErrDeadlineExceeded\<close> are the
  two values of \<open>ctx.Err()\<close>; \<open>Wrap err msg\<close> is \<open>errors.Wrap(err, msg)\<close>; \<open>Panic\<close> is a
  run-time panic.  \<open>ErrSubtreeFull\<close> is the error of the proof encoder (see below).
\<close>

datatype error =
    ErrInvalidRoot
  | ErrDirtyRoot
  | ErrNodeNotFound
  | ErrSubtreeFull
  | ErrCanceled
  | ErrDeadlineExceeded
  | Wrap error string
  | Panic string

text \<open>Modelled from the spec: \<open>Key.BitLength\<close>, the tracked length in bits.\<close>

definition BitLength :: "key \<Rightarrow> nat" where
  "BitLength k = length k"

text \<open>
  Modelled from the spec: \<open>Key.GetBit\<close>, "get bit at position".  A position past the
  end is an index out of range of the underlying slice, a panic in Go.
\<close>

definition GetBit :: "key \<Rightarrow> nat \<Rightarrow> error + bool" where
  "GetBit k pos = (if pos < length k then Inr (k ! pos) else Inl (Panic ''index out of range''))"

text \<open>
  Modelled from the spec: \<open>Key.Split\<close>, "split into (prefix, suffix) at a bit position",
  of the first \<open>keyLen\<close> bits.  A split point past \<open>keyLen\<close> is a panic.
\<close>

definition Split :: "key \<Rightarrow> nat \<Rightarrow> nat \<Rightarrow> error + (key \<times> key)" where
  "Split k splitPoint keyLen =
     (if keyLen < splitPoint then Inl (Panic ''split point greater than key length'')
      else Inr (take splitPoint (take keyLen k), drop splitPoint (take keyLen k)))"

text \<open>Modelled from the spec: \<open>Key.AppendBit\<close>, "append one bit at a position".\<close>

definition AppendBit :: "key \<Rightarrow> nat \<Rightarrow> bool \<Rightarrow> key" where
  "AppendBit k keyLen val = take keyLen k @ [val]"

text \<open>
  Modelled from the spec: \<open>Key.Merge\<close>, "merge a label of given bit-length at a
  position".
\<close>

definition Merge :: "key \<Rightarrow> nat \<Rightarrow> key \<Rightarrow> nat \<Rightarrow> key" where
  "Merge k keyLen k2 k2Len = take keyLen k @ take k2Len k2"

subsection \<open>Roots, node identifiers, nodes and pointers\<close>

text \<open>
  Modelled from the spec: \<open>node.Root\<close> is \<open>{Namespace, Round, Hash}\<close> and \<open>node.ID\<close> is
  \<open>{Path, BitDepth}\<close>.
\<close>

record Root =
  Namespace :: bytes
  Round :: nat
  Hash :: hash

text \<open>
  Modelled from the spec: \<open>Root.Equal\<close>; "two Roots are equal iff all three fields
  match".
\<close>

definition Equal :: "Root \<Rightarrow> Root \<Rightarrow> bool" where
  "Equal r1 r2 = (Namespace r1 = Namespace r2 \<and> Round r1 = Round r2 \<and> Hash r1 = Hash r2)"

record ID =
  Path :: key
  BitDepth :: nat

text \<open>
  Modelled from the spec: the node model.  An internal node holds its label and three
  pointers (the colocated leaf, the left and the right child); a leaf holds a key and a
  value.  A pointer is nil (\<open>NilPtr\<close>, "no child here") or carries its clean flag, the
  hash of the subtree and the content that hash commits to.  Whether the content is
  resident in memory is a matter of the cache (below), not of the pointer: nodes are
  "immutable content-addressed values".
\<close>

datatype node =
    InternalNode key nat pointer pointer pointer
  | LeafNode key bytes
and pointer =
    NilPtr
  | Pointer bool hash node

text \<open>
  Modelled from the spec: \<open>Node.Extract\<close>, the "fully-extracted node" put into a proof
  and returned by \<open>GetNode\<close>: the content of one node, its children known by hash only
  (the empty hash for an absent child).
\<close>

datatype full_node =
    FullInternalNode key nat hash hash hash
  | FullLeafNode key bytes

definition emptyHash :: hash where
  "emptyHash = []"

fun ptrHash :: "pointer \<Rightarrow> hash" where
  "ptrHash NilPtr = emptyHash"
| "ptrHash (Pointer cl h nd) = h"

fun Extract :: "node \<Rightarrow> full_node" where
  "Extract (InternalNode lbl len lf l r) = FullInternalNode lbl len (ptrHash lf) (ptrHash l) (ptrHash r)"
| "Extract (LeafNode k v) = FullLeafNode k v"

text \<open>Modelled from the spec: \<open>Pointer.IsClean\<close>; a nil pointer holds no modification.\<close>

fun IsClean :: "pointer \<Rightarrow> bool" where
  "IsClean NilPtr = True"
| "IsClean (Pointer cl h nd) = cl"

subsection \<open>The caller's context\<close>

text \<open>
  \<open>ctx.Done()\<close> is ready exactly when \<open>ctx.Err()\<close> is not nil; \<open>Err\<close> gives that error,
  and \<open>None\<close> for a context that is still live.  The state of the context is the same
  at every check of one call.
\<close>

datatype Context = Live | Canceled | DeadlineExceeded

fun Err :: "Context \<Rightarrow> error option" where
  "Err Live = None"
| "Err Canceled = Some ErrCanceled"
| "Err DeadlineExceeded = Some ErrDeadlineExceeded"

subsection \<open>The cache\<close>

text \<open>
  Modelled from the spec: the cache.  It tracks the root being synchronised against
  (\<open>syncRoot\<close>) and the pending root pointer (\<open>pendingRoot\<close>); \<open>resident\<close> is the set of
  hashes whose node is held in memory, and \<open>fetch\<close> is the backing store or remote peer,
  which answers a request for a node that is not resident with an error or with
  success (\<open>None\<close>).
\<close>

record cache =
  syncRoot :: Root
  pendingRoot :: pointer
  resident :: "hash set"
  fetch :: "Context \<Rightarrow> ID \<Rightarrow> hash \<Rightarrow> key option \<Rightarrow> error option"

text \<open>
  Modelled from the spec: \<open>cache.derefNodePtr\<close> "resolves a Pointer to its Node,
  fetching from backing storage (or a remote peer) if not cache-resident"; a nil
  pointer resolves to no node without an error, and a fetched node becomes resident
  ("dereferencing may populate the cache").
\<close>

fun derefNodePtr :: "cache \<Rightarrow> Context \<Rightarrow> ID \<Rightarrow> pointer \<Rightarrow> key option \<Rightarrow> (error + node option) \<times> cache" where
  "derefNodePtr c ctx nid NilPtr k = (Inr None, c)"
| "derefNodePtr c ctx nid (Pointer cl h nd) k =
     (if h \<in> resident c then (Inr (Some nd), c)
      else (case fetch c ctx nid h k of
              Some err \<Rightarrow> (Inl err, c)
            | None \<Rightarrow> (Inr (Some nd), c\<lparr>resident := insert h (resident c)\<rparr>)))"

lemma derefNodePtr_size:
  "(Inr (Some (InternalNode lbl len lf l r)), c') = derefNodePtr c ctx nid ptr k
     \<Longrightarrow> size lf < size ptr \<and> size l < size ptr \<and> size r < size ptr"
  by (cases ptr) (auto split: if_splits option.splits)

text \<open>
  Modelled from the spec: \<open>cache.derefNodeID\<close> "walks from the root following the path
  compaction of Internal nodes until the requested bit-depth is reached or a
  mismatch/absence is found; returns the actual depth at which the target Pointer
  lives".  The walk stops at a leaf and at an internal node whose label reaches past
  the requested depth; a label that differs from the path or reaches its end, or an
  absent node, gives the nil pointer.
\<close>

function walkNodeID :: "Context \<Rightarrow> ID \<Rightarrow> pointer \<Rightarrow> nat \<Rightarrow> cache \<Rightarrow> (error + pointer \<times> nat) \<times> cache" where
  "walkNodeID ctx nid curPtr bd c =
     (if BitDepth nid \<le> bd then (Inr (curPtr, bd), c)
      else (case derefNodePtr c ctx \<lparr>Path = Path nid, BitDepth = bd\<rparr> curPtr None of
              (Inl err, c') \<Rightarrow> (Inl err, c')
            | (Inr None, c') \<Rightarrow> (Inr (NilPtr, bd), c')
            | (Inr (Some (LeafNode k v)), c') \<Rightarrow> (Inr (curPtr, bd), c')
            | (Inr (Some (InternalNode lbl len lf l r)), c') \<Rightarrow>
                if BitDepth nid < bd + len then (Inr (curPtr, bd), c')
                else if BitLength (Path nid) \<le> bd + len
                        \<or> take len (drop bd (Path nid)) \<noteq> take len lbl then (Inr (NilPtr, bd), c')
                else walkNodeID ctx nid (if Path nid ! (bd + len) then r else l) (bd + len) c'))"
  by pat_completeness auto
termination
  by (relation "measure (\<lambda>(ctx, nid, curPtr, bd, c). size curPtr)")
     (auto dest!: derefNodePtr_size)

declare walkNodeID.simps [simp del]

definition derefNodeID :: "cache \<Rightarrow> Context \<Rightarrow> ID \<Rightarrow> (error + pointer \<times> nat) \<times> cache" where
  "derefNodeID c ctx nid = walkNodeID ctx nid (pendingRoot c) 0 c"

subsection \<open>The proof under construction\<close>

text \<open>
  Modelled from the spec: package \<open>syncer\<close>.  A proof (\<open>Subtree\<close>) is "an ordered,
  append-only sequence of entries, each either an InternalNodeSummary or a
  fully-extracted node", with a root pointer.  A \<open>SubtreePointer\<close> is
  \<open>{Index, Full, Valid}\<close>; a summary is a label and three such pointers (its fields carry
  the prefix \<open>sum\<close>, the names \<open>LeafNode\<close> and \<open>InternalNode\<close> being taken by the nodes).
\<close>

record SubtreePointer =
  Index :: nat
  Full :: bool
  Valid :: bool

record InternalNodeSummary =
  sumLabel :: key
  sumLabelBitLength :: nat
  sumLeafNode :: SubtreePointer
  sumLeft :: SubtreePointer
  sumRight :: SubtreePointer

datatype entry = Summary InternalNodeSummary | FullNode full_node

record Subtree =
  Root :: SubtreePointer
  Entries :: "entry list"

text \<open>
  Modelled from the spec: the sentinel \<open>InvalidSubtreeIndex\<close>, "no node".  Its value is
  not visible in the sources; it is the greatest 16-bit index here.  The general
  statements below do not depend on the value; the runs on the example trees use that
  it is greater than the number of their entries.
\<close>

definition InvalidSubtreeIndex :: nat where
  "InvalidSubtreeIndex = 65535"

text \<open>
  Modelled from the spec: \<open>AddFullNode\<close> and \<open>AddSummary\<close> "each append one entry and
  return its index".  sync.go checks an error of both; it is the proof being full, an
  index having to stay below the sentinel.
\<close>

definition AddFullNode :: "Subtree \<Rightarrow> full_node \<Rightarrow> error + (nat \<times> Subtree)" where
  "AddFullNode st n =
     (if InvalidSubtreeIndex \<le> length (Entries st) then Inl ErrSubtreeFull
      else Inr (length (Entries st), st\<lparr>Entries := Entries st @ [FullNode n]\<rparr>))"

definition AddSummary :: "Subtree \<Rightarrow> InternalNodeSummary \<Rightarrow> error + (nat \<times> Subtree)" where
  "AddSummary st s =
     (if InvalidSubtreeIndex \<le> length (Entries st) then Inl ErrSubtreeFull
      else Inr (length (Entries st), st\<lparr>Entries := Entries st @ [Summary s]\<rparr>))"

text \<open>The zero values \<open>SubtreePointer{}\<close> and \<open>&Subtree{}\<close>.\<close>

definition zeroPointer :: SubtreePointer where
  "zeroPointer = \<lparr>Index = 0, Full = False, Valid = False\<rparr>"

definition emptySubtree :: Subtree where
  "emptySubtree = \<lparr>Root = zeroPointer, Entries = []\<rparr>"

subsection \<open>GetSubtree\<close>

text \<open>
  \<open>doGetSubtree\<close> (sync.go, lines 56 to 140).  An error return drops the pointer and the
  proof, as every caller does.  The \<open>default\<close> branch of the type switch needs no case:
  a node is an internal node or a leaf.
\<close>

function doGetSubtree ::
  "Context \<Rightarrow> pointer \<Rightarrow> nat \<Rightarrow> key \<Rightarrow> Subtree \<Rightarrow> nat \<Rightarrow> nat \<Rightarrow> bool \<Rightarrow> cache
     \<Rightarrow> (error + SubtreePointer \<times> Subtree) \<times> cache" where
  "doGetSubtree ctx ptr bitDepth path st depth maxDepth right c =
     (case Err ctx of
        Some err \<Rightarrow> (Inl err, c)
      | None \<Rightarrow>
     (case derefNodePtr c ctx \<lparr>Path = AppendBit path bitDepth right, BitDepth = bitDepth + 1\<rparr> ptr None of
        (Inl err, c0) \<Rightarrow> (Inl err, c0)
      | (Inr None, c0) \<Rightarrow>
          (Inr (\<lparr>Index = InvalidSubtreeIndex, Full = False, Valid = True\<rparr>, st), c0)
      | (Inr (Some nd), c0) \<Rightarrow>
          if maxDepth \<le> depth then
            (case AddFullNode st (Extract nd) of
               Inl err \<Rightarrow> (Inl err, c0)
             | Inr (idx, st') \<Rightarrow> (Inr (\<lparr>Index = idx, Full = True, Valid = True\<rparr>, st'), c0))
          else
            (case nd of
               InternalNode lbl len lf l r \<Rightarrow>
                 (let path' = Merge path bitDepth lbl len;
                      newPath = Merge path' bitDepth lbl len
                  in
                  case doGetSubtree ctx lf (bitDepth + len) newPath st depth maxDepth False c0 of
                    (Inl err, c1) \<Rightarrow> (Inl err, c1)
                  | (Inr (leafNodePtr, st1), c1) \<Rightarrow>
                  (case doGetSubtree ctx l (bitDepth + len) newPath st1 (depth + 1) maxDepth False c1 of
                    (Inl err, c2) \<Rightarrow> (Inl err, c2)
                  | (Inr (leftPtr, st2), c2) \<Rightarrow>
                  (case doGetSubtree ctx r (bitDepth + len) newPath st2 (depth + 1) maxDepth True c2 of
                    (Inl err, c3) \<Rightarrow> (Inl err, c3)
                  | (Inr (rightPtr, st3), c3) \<Rightarrow>
                  (case AddSummary st3
                          \<lparr>sumLabel = lbl, sumLabelBitLength = len, sumLeafNode = leafNodePtr,
                           sumLeft = leftPtr, sumRight = rightPtr\<rparr> of
                     Inl err \<Rightarrow> (Inl err, c3)
                   | Inr (idx, st4) \<Rightarrow> (Inr (\<lparr>Index = idx, Full = False, Valid = True\<rparr>, st4), c3)))))
             | LeafNode k v \<Rightarrow>
                 (case AddFullNode st (Extract nd) of
                    Inl err \<Rightarrow> (Inl err, c0)
                  | Inr (idx, st') \<Rightarrow> (Inr (\<lparr>Index = idx, Full = True, Valid = True\<rparr>, st'), c0)))))"
  by pat_completeness auto
termination
  by (relation "measure (\<lambda>(ctx, ptr, bitDepth, path, st, depth, maxDepth, right, c). size ptr)")
     (auto dest!: derefNodePtr_size)

declare doGetSubtree.simps [simp del]

text \<open>
  \<open>GetSubtree\<close> (sync.go, lines 19 to 54).  \<open>errors.Wrap\<close> is the constructor \<open>Wrap\<close>.
\<close>

definition GetSubtree :: "Context \<Rightarrow> Root \<Rightarrow> ID \<Rightarrow> nat \<Rightarrow> cache \<Rightarrow> (error + Subtree) \<times> cache" where
  "GetSubtree ctx root nid maxDepth c =
     (if \<not> Equal root (syncRoot c) then (Inl ErrInvalidRoot, c)
      else if \<not> IsClean (pendingRoot c) then (Inl ErrDirtyRoot, c)
      else
     (case derefNodeID c ctx nid of
        (Inl err, c1) \<Rightarrow> (Inl ErrNodeNotFound, c1)
      | (Inr (subtreeRoot, bd), c1) \<Rightarrow>
     (case Split (Path nid) bd (BitLength (Path nid)) of
        Inl err \<Rightarrow> (Inl err, c1)
      | Inr (path, sfx) \<Rightarrow>
     (case (if Path nid \<noteq> [] then GetBit (Path nid) bd else Inr False) of
        Inl err \<Rightarrow> (Inl err, c1)
      | Inr right \<Rightarrow>
     (case doGetSubtree ctx subtreeRoot bd path emptySubtree 0 maxDepth right c1 of
        (Inl err, c2) \<Rightarrow> (Inl (Wrap err ''urkel: failed to get subtree''), c2)
      | (Inr (rootPtr, st), c2) \<Rightarrow>
          (let st' = st\<lparr>Root := rootPtr\<rparr>
           in if \<not> Valid (Root st') then (Inl ErrInvalidRoot, c2) else (Inr st', c2)))))))"

subsection \<open>GetPath\<close>

text \<open>
  \<open>doGetPath\<close> (sync.go, lines 183 to 275).  The nullable \<open>key\<close> is an option.  The
  bit of the key that tells the off-path child is read under the guard of the source;
  the panic of \<open>GetBit\<close> stays a branch, although the guard excludes it.
\<close>

function doGetPath ::
  "Context \<Rightarrow> pointer \<Rightarrow> nat \<Rightarrow> key \<Rightarrow> key option \<Rightarrow> Subtree \<Rightarrow> bool \<Rightarrow> cache
     \<Rightarrow> (error + SubtreePointer \<times> Subtree) \<times> cache" where
  "doGetPath ctx ptr bitDepth path key st right c =
     (case Err ctx of
        Some err \<Rightarrow> (Inl err, c)
      | None \<Rightarrow>
     (let extPath = AppendBit path bitDepth right in
      case derefNodePtr c ctx \<lparr>Path = extPath, BitDepth = bitDepth + 1\<rparr> ptr (Some extPath) of
        (Inl err, c0) \<Rightarrow> (Inl err, c0)
      | (Inr None, c0) \<Rightarrow>
          (Inr (\<lparr>Index = InvalidSubtreeIndex, Full = False, Valid = True\<rparr>, st), c0)
      | (Inr (Some nd), c0) \<Rightarrow>
          (case key of
             None \<Rightarrow>
               (case AddFullNode st (Extract nd) of
                  Inl err \<Rightarrow> (Inl err, c0)
                | Inr (idx, st') \<Rightarrow> (Inr (\<lparr>Index = idx, Full = True, Valid = True\<rparr>, st'), c0))
           | Some k \<Rightarrow>
               (case nd of
                  InternalNode lbl len lf l r \<Rightarrow>
                    (case (if bitDepth + len < BitLength k
                           then (case GetBit k (bitDepth + len) of
                                   Inl err \<Rightarrow> Inl err
                                 | Inr b \<Rightarrow> Inr (if b then (None, Some k) else (Some k, None)))
                           else Inr (None, None)) of
                       Inl err \<Rightarrow> (Inl err, c0)
                     | Inr (leftKey, rightKey) \<Rightarrow>
                    (let newPath = Merge path bitDepth lbl len in
                     case doGetPath ctx lf (bitDepth + len) newPath (Some newPath) st False c0 of
                       (Inl err, c1) \<Rightarrow> (Inl err, c1)
                     | (Inr (leafNodePtr, st1), c1) \<Rightarrow>
                     (case doGetPath ctx l (bitDepth + len) newPath leftKey st1 False c1 of
                       (Inl err, c2) \<Rightarrow> (Inl err, c2)
                     | (Inr (leftPtr, st2), c2) \<Rightarrow>
                     (case doGetPath ctx r (bitDepth + len) newPath rightKey st2 True c2 of
                       (Inl err, c3) \<Rightarrow> (Inl err, c3)
                     | (Inr (rightPtr, st3), c3) \<Rightarrow>
                     (case AddSummary st3
                             \<lparr>sumLabel = lbl, sumLabelBitLength = len, sumLeafNode = leafNodePtr,
                              sumLeft = leftPtr, sumRight = rightPtr\<rparr> of
                        Inl err \<Rightarrow> (Inl err, c3)
                      | Inr (idx, st4) \<Rightarrow>
                          (Inr (\<lparr>Index = idx, Full = False, Valid = True\<rparr>, st4), c3))))))
                | LeafNode lk v \<Rightarrow>
                    (case AddFullNode st (Extract nd) of
                       Inl err \<Rightarrow> (Inl err, c0)
                     | Inr (idx, st') \<Rightarrow>
                         (Inr (\<lparr>Index = idx, Full = True, Valid = True\<rparr>, st'), c0))))))"
  by pat_completeness auto
termination
  by (relation "measure (\<lambda>(ctx, ptr, bitDepth, path, key, st, right, c). size ptr)")
     (auto dest!: derefNodePtr_size)

declare doGetPath.simps [simp del]

text \<open>\<open>GetPath\<close> (sync.go, lines 147 to 181).\<close>

definition GetPath :: "Context \<Rightarrow> Root \<Rightarrow> key \<Rightarrow> nat \<Rightarrow> cache \<Rightarrow> (error + Subtree) \<times> cache" where
  "GetPath ctx root key startBitDepth c =
     (if \<not> Equal root (syncRoot c) then (Inl ErrInvalidRoot, c)
      else if \<not> IsClean (pendingRoot c) then (Inl ErrDirtyRoot, c)
      else
     (case derefNodeID c ctx \<lparr>Path = key, BitDepth = startBitDepth\<rparr> of
        (Inl err, c1) \<Rightarrow> (Inl ErrNodeNotFound, c1)
      | (Inr (subtreeRoot, bd), c1) \<Rightarrow>
     (case (if key \<noteq> [] then GetBit key bd else Inr False) of
        Inl err \<Rightarrow> (Inl err, c1)
      | Inr right \<Rightarrow>
     (case Split key bd (BitLength key) of
        Inl err \<Rightarrow> (Inl err, c1)
      | Inr (path, sfx) \<Rightarrow>
     (case doGetPath ctx subtreeRoot bd path (Some key) emptySubtree right c1 of
        (Inl err, c2) \<Rightarrow> (Inl (Wrap err ''urkel: failed to get path''), c2)
      | (Inr (rootPtr, st), c2) \<Rightarrow>
          (let st' = st\<lparr>Root := rootPtr\<rparr>
           in if \<not> Valid (Root st') then (Inl ErrInvalidRoot, c2) else (Inr st', c2)))))))"

subsection \<open>GetNode\<close>

text \<open>
  \<open>GetNode\<close> (sync.go, lines 282 to 302).  \<open>nd.Extract()\<close> on the nil node that
  \<open>derefNodePtr\<close> returns for a nil pointer is a nil dereference, a panic.
\<close>

definition GetNode :: "Context \<Rightarrow> Root \<Rightarrow> ID \<Rightarrow> cache \<Rightarrow> (error + full_node) \<times> cache" where
  "GetNode ctx root nid c =
     (if \<not> Equal root (syncRoot c) then (Inl ErrInvalidRoot, c)
      else if \<not> IsClean (pendingRoot c) then (Inl ErrDirtyRoot, c)
      else
     (case derefNodeID c ctx nid of
        (Inl err, c1) \<Rightarrow> (Inl ErrNodeNotFound, c1)
      | (Inr (ptr, bd), c1) \<Rightarrow>
     (case derefNodePtr c1 ctx nid ptr None of
        (Inl err, c2) \<Rightarrow> (Inl ErrNodeNotFound, c2)
      | (Inr None, c2) \<Rightarrow> (Inl (Panic ''nil pointer dereference''), c2)
      | (Inr (Some nd), c2) \<Rightarrow> (Inr (Extract nd), c2))))"

section \<open>Notions used to state the properties\<close>


text \<open>
  A pointer "carries a real index" when it is valid and its index is not the sentinel;
  \<open>ptrBefore i p\<close> says that such a pointer refers to an entry before position \<open>i\<close>.
  \<open>postOrder\<close> is the ordering invariant: the three pointers of every summary refer to
  entries before the summary.
\<close>

definition ptrBefore :: "nat \<Rightarrow> SubtreePointer \<Rightarrow> bool" where
  "ptrBefore i p = (Valid p \<and> Index p \<noteq> InvalidSubtreeIndex \<longrightarrow> Index p < i)"

definition postOrder :: "entry list \<Rightarrow> bool" where
  "postOrder es =
     (\<forall>i<length es. case es ! i of
        Summary s \<Rightarrow> ptrBefore i (sumLeafNode s) \<and> ptrBefore i (sumLeft s) \<and> ptrBefore i (sumRight s)
      | FullNode n \<Rightarrow> True)"











section \<open>Example trees\<close>

text \<open>The keys "0" (byte 0x30) and "p" (byte 0x70), as bits.\<close>

definition key0 :: key where
  "key0 = [False, False, True, True, False, False, False, False]"

definition keyP :: key where
  "keyP = [False, True, True, True, False, False, False, False]"

definition root0 :: Root where
  "root0 = \<lparr>Namespace = ''ns'', Round = 1, Hash = ''h0''\<rparr>"

definition otherRoot :: Root where
  "otherRoot = \<lparr>Namespace = ''ns'', Round = 2, Hash = ''h0''\<rparr>"

definition nid0 :: ID where
  "nid0 = \<lparr>Path = [], BitDepth = 0\<rparr>"

text \<open>The tree with the one leaf "0" \<open>\<mapsto>\<close> "v0", resident, on a store that always answers.\<close>

definition leaf0 :: pointer where
  "leaf0 = Pointer True ''h0'' (LeafNode key0 ''v0'')"

definition leafCache :: cache where
  "leafCache = \<lparr>syncRoot = root0, pendingRoot = leaf0, resident = {''h0''},
                 fetch = (\<lambda>ctx nid h k. None)\<rparr>"

text \<open>The empty tree.\<close>

definition emptyCache :: cache where
  "emptyCache = \<lparr>syncRoot = root0, pendingRoot = NilPtr, resident = {},
                  fetch = (\<lambda>ctx nid h k. None)\<rparr>"

text \<open>The one-leaf tree with an uncommitted modification pending.\<close>

definition dirtyCache :: cache where
  "dirtyCache = \<lparr>syncRoot = root0, pendingRoot = Pointer False ''h0'' (LeafNode key0 ''v0''),
                  resident = {''h0''}, fetch = (\<lambda>ctx nid h k. None)\<rparr>"

text \<open>
  The one-leaf tree with nothing resident, on a store whose fetch is cancellable: it
  fails exactly when the context is done, with the error of the context.
\<close>

definition coldCache :: cache where
  "coldCache = \<lparr>syncRoot = root0, pendingRoot = leaf0, resident = {},
                 fetch = (\<lambda>ctx nid h k. Err ctx)\<rparr>"

text \<open>
  A tree of three nodes: an internal node with the one-bit label 0, no colocated leaf,
  the leaf "0" to the left and the leaf "p" to the right.
\<close>

definition leafP :: pointer where
  "leafP = Pointer True ''hp'' (LeafNode keyP ''vp'')"

definition fork :: pointer where
  "fork = Pointer True ''hf'' (InternalNode [False] 1 NilPtr leaf0 leafP)"

definition rootF :: Root where
  "rootF = \<lparr>Namespace = ''ns'', Round = 3, Hash = ''hf''\<rparr>"

definition forkCache :: cache where
  "forkCache = \<lparr>syncRoot = rootF, pendingRoot = fork, resident = {''hf'', ''h0'', ''hp''},
                 fetch = (\<lambda>ctx nid h k. None)\<rparr>"

text \<open>The proof of the whole three-node tree.\<close>

definition forkProof :: Subtree where
  "forkProof = \<lparr>Root = \<lparr>Index = 2, Full = False, Valid = True\<rparr>,
     Entries = [FullNode (FullLeafNode key0 ''v0''), FullNode (FullLeafNode keyP ''vp''),
       Summary \<lparr>sumLabel = [False], sumLabelBitLength = 1,
                sumLeafNode = \<lparr>Index = InvalidSubtreeIndex, Full = False, Valid = True\<rparr>,
                sumLeft = \<lparr>Index = 0, Full = True, Valid = True\<rparr>,
                sumRight = \<lparr>Index = 1, Full = True, Valid = True\<rparr>\<rparr>]\<rparr>"



















section \<open>Auxiliary facts\<close>

subsection \<open>The proof encoder and the cache\<close>

lemma postOrder_snoc_full: "postOrder es \<Longrightarrow> postOrder (es @ [FullNode n])"
  by (auto simp: postOrder_def nth_append less_Suc_eq)

lemma postOrder_snoc_summary:
  "postOrder es \<Longrightarrow> ptrBefore (length es) (sumLeafNode s) \<Longrightarrow> ptrBefore (length es) (sumLeft s)
    \<Longrightarrow> ptrBefore (length es) (sumRight s) \<Longrightarrow> postOrder (es @ [Summary s])"
  by (auto simp: postOrder_def nth_append less_Suc_eq)

lemma ptrBefore_mono: "ptrBefore i p \<Longrightarrow> i \<le> j \<Longrightarrow> ptrBefore j p"
  by (auto simp: ptrBefore_def)

lemma AddFullNode_Inr:
  "AddFullNode st n = Inr (idx, st') \<Longrightarrow>
     length (Entries st) < InvalidSubtreeIndex \<and> idx = length (Entries st)
       \<and> st' = st\<lparr>Entries := Entries st @ [FullNode n]\<rparr>"
  by (auto simp: AddFullNode_def split: if_splits)

lemma AddSummary_Inr:
  "AddSummary st s = Inr (idx, st') \<Longrightarrow>
     length (Entries st) < InvalidSubtreeIndex \<and> idx = length (Entries st)
       \<and> st' = st\<lparr>Entries := Entries st @ [Summary s]\<rparr>"
  by (auto simp: AddSummary_def split: if_splits)

lemma derefNodePtr_children:
  "derefNodePtr c ctx nid ptr k = (Inr (Some (InternalNode lbl len lf l r)), c')
     \<Longrightarrow> size lf < size ptr \<and> size l < size ptr \<and> size r < size ptr"
  by (cases ptr) (auto split: if_splits option.splits)




text \<open>
  The successful runs of the two recursions, case by case: the node is absent, or it
  is emitted as a full node, or it is an internal node emitted as a summary after its
  three children.
\<close>

lemma doGetSubtree_InrE:
  assumes "doGetSubtree ctx ptr bitDepth path st depth maxDepth right c = (Inr (p, st'), c')"
  obtains
    (absent) "Err ctx = None"
      "derefNodePtr c ctx \<lparr>Path = AppendBit path bitDepth right, BitDepth = bitDepth + 1\<rparr> ptr None
         = (Inr None, c')"
      "p = \<lparr>Index = InvalidSubtreeIndex, Full = False, Valid = True\<rparr>" "st' = st"
  | (full) nd where "Err ctx = None"
      "derefNodePtr c ctx \<lparr>Path = AppendBit path bitDepth right, BitDepth = bitDepth + 1\<rparr> ptr None
         = (Inr (Some nd), c')"
      "maxDepth \<le> depth \<or> (\<exists>k v. nd = LeafNode k v)"
      "length (Entries st) < InvalidSubtreeIndex"
      "p = \<lparr>Index = length (Entries st), Full = True, Valid = True\<rparr>"
      "st' = st\<lparr>Entries := Entries st @ [FullNode (Extract nd)]\<rparr>"
  | (summary) lbl len lf l r c0 newPath pl st1 c1 pL st2 c2 pR st3 where "Err ctx = None"
      "derefNodePtr c ctx \<lparr>Path = AppendBit path bitDepth right, BitDepth = bitDepth + 1\<rparr> ptr None
         = (Inr (Some (InternalNode lbl len lf l r)), c0)"
      "depth < maxDepth"
      "newPath = Merge (Merge path bitDepth lbl len) bitDepth lbl len"
      "doGetSubtree ctx lf (bitDepth + len) newPath st depth maxDepth False c0 = (Inr (pl, st1), c1)"
      "doGetSubtree ctx l (bitDepth + len) newPath st1 (depth + 1) maxDepth False c1 = (Inr (pL, st2), c2)"
      "doGetSubtree ctx r (bitDepth + len) newPath st2 (depth + 1) maxDepth True c2 = (Inr (pR, st3), c')"
      "length (Entries st3) < InvalidSubtreeIndex"
      "p = \<lparr>Index = length (Entries st3), Full = False, Valid = True\<rparr>"
      "st' = st3\<lparr>Entries := Entries st3 @
           [Summary \<lparr>sumLabel = lbl, sumLabelBitLength = len, sumLeafNode = pl,
                     sumLeft = pL, sumRight = pR\<rparr>]\<rparr>"
proof -
  note eq = assms[unfolded doGetSubtree.simps[of ctx ptr bitDepth path st depth maxDepth right c]]
  from eq show thesis
    by (auto split: option.splits sum.splits prod.splits if_splits node.splits simp: Let_def
          dest!: AddFullNode_Inr AddSummary_Inr intro: that)
qed

lemma doGetPath_InrE:
  assumes "doGetPath ctx ptr bitDepth path key st right c = (Inr (p, st'), c')"
  obtains
    (absent) "Err ctx = None"
      "derefNodePtr c ctx \<lparr>Path = AppendBit path bitDepth right, BitDepth = bitDepth + 1\<rparr> ptr
         (Some (AppendBit path bitDepth right)) = (Inr None, c')"
      "p = \<lparr>Index = InvalidSubtreeIndex, Full = False, Valid = True\<rparr>" "st' = st"
  | (full) nd where "Err ctx = None"
      "derefNodePtr c ctx \<lparr>Path = AppendBit path bitDepth right, BitDepth = bitDepth + 1\<rparr> ptr
         (Some (AppendBit path bitDepth right)) = (Inr (Some nd), c')"
      "key = None \<or> (\<exists>k v. nd = LeafNode k v)"
      "length (Entries st) < InvalidSubtreeIndex"
      "p = \<lparr>Index = length (Entries st), Full = True, Valid = True\<rparr>"
      "st' = st\<lparr>Entries := Entries st @ [FullNode (Extract nd)]\<rparr>"
  | (summary) k lbl len lf l r c0 leftKey rightKey newPath pl st1 c1 pL st2 c2 pR st3 where
      "Err ctx = None" "key = Some k"
      "derefNodePtr c ctx \<lparr>Path = AppendBit path bitDepth right, BitDepth = bitDepth + 1\<rparr> ptr
         (Some (AppendBit path bitDepth right)) = (Inr (Some (InternalNode lbl len lf l r)), c0)"
      "leftKey = (if bitDepth + len < length k \<and> \<not> k ! (bitDepth + len) then Some k else None)"
      "rightKey = (if bitDepth + len < length k \<and> k ! (bitDepth + len) then Some k else None)"
      "newPath = Merge path bitDepth lbl len"
      "doGetPath ctx lf (bitDepth + len) newPath (Some newPath) st False c0 = (Inr (pl, st1), c1)"
      "doGetPath ctx l (bitDepth + len) newPath leftKey st1 False c1 = (Inr (pL, st2), c2)"
      "doGetPath ctx r (bitDepth + len) newPath rightKey st2 True c2 = (Inr (pR, st3), c')"
      "length (Entries st3) < InvalidSubtreeIndex"
      "p = \<lparr>Index = length (Entries st3), Full = False, Valid = True\<rparr>"
      "st' = st3\<lparr>Entries := Entries st3 @
           [Summary \<lparr>sumLabel = lbl, sumLabelBitLength = len, sumLeafNode = pl,
                     sumLeft = pL, sumRight = pR\<rparr>]\<rparr>"
proof -
  note eq = assms[unfolded doGetPath.simps[of ctx ptr bitDepth path key st right c]]
  from eq show thesis
    by (auto split: option.splits sum.splits prod.splits if_splits node.splits
          simp: Let_def BitLength_def GetBit_def
          dest!: AddFullNode_Inr AddSummary_Inr intro: that)
qed

text \<open>
  Every successful run of either recursion extends the proof at its end, returns a
  pointer that refers to an entry of the new proof when it carries a real index, and
  keeps the ordering invariant.
\<close>

lemma doGetSubtree_inv:
  "doGetSubtree ctx ptr bitDepth path st depth maxDepth right c = (Inr (p, st'), c') \<Longrightarrow>
     (\<exists>new. Entries st' = Entries st @ new) \<and> ptrBefore (length (Entries st')) p
       \<and> (postOrder (Entries st) \<longrightarrow> postOrder (Entries st'))"
proof (induction ptr arbitrary: bitDepth path st depth right c p st' c'
        rule: measure_induct_rule [where f = size])
  case (less ptr)
  from less.prems show ?case
  proof (cases rule: doGetSubtree_InrE)
    case absent
    then show ?thesis by (simp add: ptrBefore_def)
  next
    case (full nd)
    then show ?thesis by (simp add: ptrBefore_def postOrder_snoc_full)
  next
    case (summary lbl len lf l r c0 newPath pl st1 c1 pL st2 c2 pR st3)
    note sz = derefNodePtr_children [OF summary(2)]
    from less.IH [OF _ summary(5)] sz obtain n1 where e1: "Entries st1 = Entries st @ n1"
      and b1: "ptrBefore (length (Entries st1)) pl"
      and o1: "postOrder (Entries st) \<longrightarrow> postOrder (Entries st1)" by blast
    from less.IH [OF _ summary(6)] sz obtain n2 where e2: "Entries st2 = Entries st1 @ n2"
      and b2: "ptrBefore (length (Entries st2)) pL"
      and o2: "postOrder (Entries st1) \<longrightarrow> postOrder (Entries st2)" by blast
    from less.IH [OF _ summary(7)] sz obtain n3 where e3: "Entries st3 = Entries st2 @ n3"
      and b3: "ptrBefore (length (Entries st3)) pR"
      and o3: "postOrder (Entries st2) \<longrightarrow> postOrder (Entries st3)" by blast
    have b1': "ptrBefore (length (Entries st3)) pl"
      using b1 e2 e3 by (auto intro: ptrBefore_mono)
    have b2': "ptrBefore (length (Entries st3)) pL"
      using b2 e3 by (auto intro: ptrBefore_mono)
    have "postOrder (Entries st) \<longrightarrow> postOrder (Entries st')"
      using o1 o2 o3 b1' b2' b3 summary(10) by (auto intro!: postOrder_snoc_summary)
    moreover have "\<exists>new. Entries st' = Entries st @ new"
      using e1 e2 e3 summary(10) by simp
    moreover have "ptrBefore (length (Entries st')) p"
      using summary(9,10) by (simp add: ptrBefore_def)
    ultimately show ?thesis by blast
  qed
qed

lemma doGetPath_inv:
  "doGetPath ctx ptr bitDepth path key st right c = (Inr (p, st'), c') \<Longrightarrow>
     (\<exists>new. Entries st' = Entries st @ new) \<and> ptrBefore (length (Entries st')) p
       \<and> (postOrder (Entries st) \<longrightarrow> postOrder (Entries st'))"
proof (induction ptr arbitrary: bitDepth path key st right c p st' c'
        rule: measure_induct_rule [where f = size])
  case (less ptr)
  from less.prems show ?case
  proof (cases rule: doGetPath_InrE)
    case absent
    then show ?thesis by (simp add: ptrBefore_def)
  next
    case (full nd)
    then show ?thesis by (simp add: ptrBefore_def postOrder_snoc_full)
  next
    case (summary k lbl len lf l r c0 leftKey rightKey newPath pl st1 c1 pL st2 c2 pR st3)
    note sz = derefNodePtr_children [OF summary(3)]
    from less.IH [OF _ summary(7)] sz obtain n1 where e1: "Entries st1 = Entries st @ n1"
      and b1: "ptrBefore (length (Entries st1)) pl"
      and o1: "postOrder (Entries st) \<longrightarrow> postOrder (Entries st1)" by blast
    from less.IH [OF _ summary(8)] sz obtain n2 where e2: "Entries st2 = Entries st1 @ n2"
      and b2: "ptrBefore (length (Entries st2)) pL"
      and o2: "postOrder (Entries st1) \<longrightarrow> postOrder (Entries st2)" by blast
    from less.IH [OF _ summary(9)] sz obtain n3 where e3: "Entries st3 = Entries st2 @ n3"
      and b3: "ptrBefore (length (Entries st3)) pR"
      and o3: "postOrder (Entries st2) \<longrightarrow> postOrder (Entries st3)" by blast
    have b1': "ptrBefore (length (Entries st3)) pl"
      using b1 e2 e3 by (auto intro: ptrBefore_mono)
    have b2': "ptrBefore (length (Entries st3)) pL"
      using b2 e3 by (auto intro: ptrBefore_mono)
    have "postOrder (Entries st) \<longrightarrow> postOrder (Entries st')"
      using o1 o2 o3 b1' b2' b3 summary(12) by (auto intro!: postOrder_snoc_summary)
    moreover have "\<exists>new. Entries st' = Entries st @ new"
      using e1 e2 e3 summary(12) by simp
    moreover have "ptrBefore (length (Entries st')) p"
      using summary(11,12) by (simp add: ptrBefore_def)
    ultimately show ?thesis by blast
  qed
qed












text \<open>The successful runs of \<open>GetSubtree\<close> and \<open>GetPath\<close>.\<close>

lemma postOrder_Nil: "postOrder []"
  by (simp add: postOrder_def)

lemma GetSubtree_InrE:
  assumes "GetSubtree ctx root nid maxDepth c = (Inr st, c')"
  obtains subtreeRoot bd c1 path sfx right rootPtr st0 where
    "Equal root (syncRoot c)" "IsClean (pendingRoot c)"
    "derefNodeID c ctx nid = (Inr (subtreeRoot, bd), c1)"
    "Split (Path nid) bd (BitLength (Path nid)) = Inr (path, sfx)"
    "(if Path nid \<noteq> [] then GetBit (Path nid) bd else Inr False) = Inr right"
    "doGetSubtree ctx subtreeRoot bd path emptySubtree 0 maxDepth right c1 = (Inr (rootPtr, st0), c')"
    "st = st0\<lparr>Root := rootPtr\<rparr>"
proof -
  have g: "Equal root (syncRoot c)" "IsClean (pendingRoot c)"
    using assms by (auto simp: GetSubtree_def split: if_split_asm)
  obtain r1 c1 where d: "derefNodeID c ctx nid = (r1, c1)"
    by (cases "derefNodeID c ctx nid")
  with assms g obtain subtreeRoot bd where r1: "r1 = Inr (subtreeRoot, bd)"
    by (cases r1) (auto simp: GetSubtree_def)
  obtain s1 where s: "Split (Path nid) bd (BitLength (Path nid)) = s1"
    by simp
  with assms g d r1 obtain path sfx where s1: "s1 = Inr (path, sfx)"
    by (cases s1) (auto simp: GetSubtree_def)
  obtain b1 where b: "(if Path nid \<noteq> [] then GetBit (Path nid) bd else Inr False) = b1"
    by simp
  with assms g d r1 s s1 obtain right where b1: "b1 = Inr right"
    by (cases b1) (auto simp: GetSubtree_def)
  obtain r2 c2 where run: "doGetSubtree ctx subtreeRoot bd path emptySubtree 0 maxDepth right c1 = (r2, c2)"
    by (cases "doGetSubtree ctx subtreeRoot bd path emptySubtree 0 maxDepth right c1")
  with assms g d r1 s s1 b b1 obtain rootPtr st0 where r2: "r2 = Inr (rootPtr, st0)"
    by (cases r2) (auto simp: GetSubtree_def)
  from assms g d r1 s s1 b b1 run r2 have "c2 = c'" "st = st0\<lparr>Root := rootPtr\<rparr>"
    by (auto simp: GetSubtree_def Let_def split: if_split_asm)
  with g d r1 s s1 b b1 run r2 show thesis
    by (intro that [of subtreeRoot bd c1 path sfx right rootPtr st0]) simp_all
qed

lemma GetPath_InrE:
  assumes "GetPath ctx root key startBitDepth c = (Inr st, c')"
  obtains subtreeRoot bd c1 path sfx right rootPtr st0 where
    "Equal root (syncRoot c)" "IsClean (pendingRoot c)"
    "derefNodeID c ctx \<lparr>Path = key, BitDepth = startBitDepth\<rparr> = (Inr (subtreeRoot, bd), c1)"
    "(if key \<noteq> [] then GetBit key bd else Inr False) = Inr right"
    "Split key bd (BitLength key) = Inr (path, sfx)"
    "doGetPath ctx subtreeRoot bd path (Some key) emptySubtree right c1 = (Inr (rootPtr, st0), c')"
    "st = st0\<lparr>Root := rootPtr\<rparr>"
proof -
  have g: "Equal root (syncRoot c)" "IsClean (pendingRoot c)"
    using assms by (auto simp: GetPath_def split: if_split_asm)
  obtain r1 c1 where d: "derefNodeID c ctx \<lparr>Path = key, BitDepth = startBitDepth\<rparr> = (r1, c1)"
    by (cases "derefNodeID c ctx \<lparr>Path = key, BitDepth = startBitDepth\<rparr>")
  with assms g obtain subtreeRoot bd where r1: "r1 = Inr (subtreeRoot, bd)"
    by (cases r1) (auto simp: GetPath_def)
  obtain b1 where b: "(if key \<noteq> [] then GetBit key bd else Inr False) = b1"
    by simp
  with assms g d r1 obtain right where b1: "b1 = Inr right"
    by (cases b1) (auto simp: GetPath_def)
  obtain s1 where s: "Split key bd (BitLength key) = s1"
    by simp
  with assms g d r1 b b1 obtain path sfx where s1: "s1 = Inr (path, sfx)"
    by (cases s1) (auto simp: GetPath_def)
  obtain r2 c2 where run: "doGetPath ctx subtreeRoot bd path (Some key) emptySubtree right c1 = (r2, c2)"
    by (cases "doGetPath ctx subtreeRoot bd path (Some key) emptySubtree right c1")
  with assms g d r1 s s1 b b1 obtain rootPtr st0 where r2: "r2 = Inr (rootPtr, st0)"
    by (cases r2) (auto simp: GetPath_def)
  from assms g d r1 s s1 b b1 run r2 have "c2 = c'" "st = st0\<lparr>Root := rootPtr\<rparr>"
    by (auto simp: GetPath_def Let_def split: if_split_asm)
  with g d r1 s s1 b b1 run r2 show thesis
    by (intro that [of subtreeRoot bd c1 right path sfx rootPtr st0]) simp_all
qed

text \<open>The first step of either recursion on a nil pointer, and under a context that is done.\<close>

lemma doGetSubtree_NilPtr:
  "Err ctx = None \<Longrightarrow>
     doGetSubtree ctx NilPtr bitDepth path st depth maxDepth right c =
       (Inr (\<lparr>Index = InvalidSubtreeIndex, Full = False, Valid = True\<rparr>, st), c)"
  by (simp add: doGetSubtree.simps)

lemma doGetPath_NilPtr:
  "Err ctx = None \<Longrightarrow>
     doGetPath ctx NilPtr bitDepth path key st right c =
       (Inr (\<lparr>Index = InvalidSubtreeIndex, Full = False, Valid = True\<rparr>, st), c)"
  by (simp add: doGetPath.simps)

lemma doGetSubtree_cancelled:
  "Err ctx = Some e \<Longrightarrow> doGetSubtree ctx ptr bitDepth path st depth maxDepth right c = (Inl e, c)"
  by (simp add: doGetSubtree.simps)

lemma doGetPath_cancelled:
  "Err ctx = Some e \<Longrightarrow> doGetPath ctx ptr bitDepth path key st right c = (Inl e, c)"
  by (simp add: doGetPath.simps)

lemma GetNode_errors:
  "fst (GetNode ctx root nid c) = Inl e \<Longrightarrow>
     e = ErrInvalidRoot \<or> e = ErrDirtyRoot \<or> e = ErrNodeNotFound
       \<or> e = Panic ''nil pointer dereference''"
  by (auto simp: GetNode_def split: if_splits prod.splits sum.splits option.splits)

lemma ID_eta: "\<lparr>Path = Path (nid::ID), BitDepth = BitDepth nid\<rparr> = nid"
  by simp

subsection \<open>Runs on the example trees\<close>

lemmas example_defs = key0_def keyP_def root0_def otherRoot_def nid0_def leaf0_def leafCache_def
  emptyCache_def dirtyCache_def coldCache_def leafP_def fork_def rootF_def forkCache_def

lemmas run_defs = GetSubtree_def GetPath_def GetNode_def Equal_def derefNodeID_def walkNodeID.simps
  Split_def BitLength_def GetBit_def AppendBit_def Merge_def doGetSubtree.simps doGetPath.simps
  emptySubtree_def zeroPointer_def AddFullNode_def AddSummary_def InvalidSubtreeIndex_def
  emptyHash_def Let_def

lemma nid0_Split: "Split (Path nid0) 0 (BitLength (Path nid0)) = Inr ([], [])"
  by (simp add: Split_def nid0_def BitLength_def)

lemma nid0_right: "(if Path nid0 \<noteq> [] then GetBit (Path nid0) 0 else Inr False) = Inr False"
  by (simp add: nid0_def)

lemma emptyCache_derefNodeID: "derefNodeID emptyCache ctx nid0 = (Inr (NilPtr, 0), emptyCache)"
  by (simp add: derefNodeID_def walkNodeID.simps nid0_def emptyCache_def)

lemma leafCache_derefNodeID: "derefNodeID leafCache Canceled nid0 = (Inr (leaf0, 0), leafCache)"
  by (simp add: derefNodeID_def walkNodeID.simps nid0_def leafCache_def)

lemma forkCache_GetSubtree: "GetSubtree Live rootF nid0 10 forkCache = (Inr forkProof, forkCache)"
  by (simp add: example_defs run_defs forkProof_def)

lemma forkCache_GetPath: "GetPath Live rootF key0 0 forkCache = (Inr forkProof, forkCache)"
  by (simp add: example_defs run_defs forkProof_def)

lemma forkCache_doGetSubtree:
  "doGetSubtree Live fork 0 [] emptySubtree 0 10 False forkCache
     = (Inr (\<lparr>Index = 2, Full = False, Valid = True\<rparr>, forkProof\<lparr>Root := zeroPointer\<rparr>), forkCache)"
  by (simp add: example_defs run_defs forkProof_def)

lemma forkCache_derefNodePtr:
  "derefNodePtr forkCache Live \<lparr>Path = AppendBit [] 0 False, BitDepth = 0 + 1\<rparr> fork None
     = (Inr (Some (InternalNode [False] 1 NilPtr leaf0 leafP)), forkCache)"
  by (simp add: forkCache_def fork_def)











section \<open>The properties\<close>

subsection \<open>The gates of the three entry points\<close>

text \<open>
  C6.  When the supplied root is not the tracked sync root, \<open>GetSubtree\<close>, \<open>GetPath\<close> and
  \<open>GetNode\<close> fail with \<open>ErrInvalidRoot\<close> before any dereference: the cache comes back
  as it was.
\<close>

theorem root_match_gate:
  "\<not> Equal root (syncRoot c) \<Longrightarrow>
     GetSubtree ctx root nid maxDepth c = (Inl ErrInvalidRoot, c) \<and>
     GetPath ctx root key startBitDepth c = (Inl ErrInvalidRoot, c) \<and>
     GetNode ctx root nid c = (Inl ErrInvalidRoot, c)"
  by (simp add: GetSubtree_def GetPath_def GetNode_def)

theorem root_match_gate_witness:
  "\<not> Equal otherRoot (syncRoot coldCache) \<and>
     GetSubtree Live otherRoot nid0 10 coldCache = (Inl ErrInvalidRoot, coldCache) \<and>
     GetPath Live otherRoot key0 0 coldCache = (Inl ErrInvalidRoot, coldCache) \<and>
     GetNode Live otherRoot nid0 coldCache = (Inl ErrInvalidRoot, coldCache)"
proof -
  have h: "\<not> Equal otherRoot (syncRoot coldCache)"
    by (simp add: Equal_def otherRoot_def coldCache_def root0_def)
  show ?thesis
    using h root_match_gate [OF h, of Live nid0 10 key0 0] by simp
qed

text \<open>
  C2, as amended.  The root is compared first.  When the supplied root is the tracked
  sync root and the pending state is not clean, the three calls fail with
  \<open>ErrDirtyRoot\<close> and leave the cache as it was.
\<close>

theorem dirty_gate:
  "Equal root (syncRoot c) \<Longrightarrow> \<not> IsClean (pendingRoot c) \<Longrightarrow>
     GetSubtree ctx root nid maxDepth c = (Inl ErrDirtyRoot, c) \<and>
     GetPath ctx root key startBitDepth c = (Inl ErrDirtyRoot, c) \<and>
     GetNode ctx root nid c = (Inl ErrDirtyRoot, c)"
  by (simp add: GetSubtree_def GetPath_def GetNode_def)

theorem dirty_gate_witness:
  "Equal root0 (syncRoot dirtyCache) \<and> \<not> IsClean (pendingRoot dirtyCache) \<and>
     GetSubtree Live root0 nid0 10 dirtyCache = (Inl ErrDirtyRoot, dirtyCache) \<and>
     GetPath Live root0 key0 0 dirtyCache = (Inl ErrDirtyRoot, dirtyCache) \<and>
     GetNode Live root0 nid0 dirtyCache = (Inl ErrDirtyRoot, dirtyCache)"
proof -
  have h1: "Equal root0 (syncRoot dirtyCache)"
    by (simp add: Equal_def dirtyCache_def)
  have h2: "\<not> IsClean (pendingRoot dirtyCache)"
    by (simp add: dirtyCache_def)
  show ?thesis
    using h1 h2 dirty_gate [OF h1 h2, of Live nid0 10 key0 0] by simp
qed

text \<open>
  C2 as stated fails: with a pending state that is not clean and a root that is not the
  tracked one, the three calls answer \<open>ErrInvalidRoot\<close>, not \<open>ErrDirtyRoot\<close>.
\<close>

theorem dirty_gate_counterexample:
  "\<not> IsClean (pendingRoot dirtyCache) \<and>
     fst (GetSubtree Live otherRoot nid0 10 dirtyCache) = Inl ErrInvalidRoot \<and>
     fst (GetPath Live otherRoot key0 0 dirtyCache) = Inl ErrInvalidRoot \<and>
     fst (GetNode Live otherRoot nid0 dirtyCache) = Inl ErrInvalidRoot"
  by (simp add: GetSubtree_def GetPath_def GetNode_def Equal_def otherRoot_def dirtyCache_def
      root0_def)

subsection \<open>Absence and cancellation\<close>

text \<open>
  C1, as amended.  When the root matches and is clean and the requested subtree or
  path does not exist (\<open>derefNodeID\<close> finds the nil pointer): under a context that is
  not done, the recursion of either call produces the root pointer with
  \<open>Index = InvalidSubtreeIndex\<close> and \<open>Valid = true\<close>, and \<open>GetSubtree\<close> and \<open>GetPath\<close>
  return a proof with that root and no entry; under a context that is done, the
  recursion returns the error of the context and the calls return it wrapped.  In
  neither case is the answer \<open>ErrInvalidRoot\<close>.
\<close>

theorem absent_root_encoding:
  assumes "Equal root (syncRoot c)" and "IsClean (pendingRoot c)"
    and "derefNodeID c ctx nid = (Inr (NilPtr, bd), c1)"
    and "Split (Path nid) bd (BitLength (Path nid)) = Inr (path, sfx)"
    and "(if Path nid \<noteq> [] then GetBit (Path nid) bd else Inr False) = Inr right"
  shows "doGetSubtree ctx NilPtr bd path emptySubtree 0 maxDepth right c1 =
           (case Err ctx of
              None \<Rightarrow> Inr (\<lparr>Index = InvalidSubtreeIndex, Full = False, Valid = True\<rparr>, emptySubtree)
            | Some e \<Rightarrow> Inl e, c1)
       \<and> doGetPath ctx NilPtr bd path (Some (Path nid)) emptySubtree right c1 =
           (case Err ctx of
              None \<Rightarrow> Inr (\<lparr>Index = InvalidSubtreeIndex, Full = False, Valid = True\<rparr>, emptySubtree)
            | Some e \<Rightarrow> Inl e, c1)
       \<and> GetSubtree ctx root nid maxDepth c =
           (case Err ctx of
              None \<Rightarrow> Inr \<lparr>Root = \<lparr>Index = InvalidSubtreeIndex, Full = False, Valid = True\<rparr>,
                           Entries = []\<rparr>
            | Some e \<Rightarrow> Inl (Wrap e ''urkel: failed to get subtree''), c1)
       \<and> GetPath ctx root (Path nid) (BitDepth nid) c =
           (case Err ctx of
              None \<Rightarrow> Inr \<lparr>Root = \<lparr>Index = InvalidSubtreeIndex, Full = False, Valid = True\<rparr>,
                           Entries = []\<rparr>
            | Some e \<Rightarrow> Inl (Wrap e ''urkel: failed to get path''), c1)"
  using assms
  by (cases "Err ctx")
     (simp_all add: GetSubtree_def GetPath_def doGetSubtree_NilPtr doGetPath_NilPtr
        doGetSubtree_cancelled doGetPath_cancelled emptySubtree_def ID_eta)

theorem absent_root_encoding_witness:
  "Equal root0 (syncRoot emptyCache) \<and> IsClean (pendingRoot emptyCache) \<and>
   derefNodeID emptyCache Live nid0 = (Inr (NilPtr, 0), emptyCache) \<and>
   derefNodeID emptyCache Canceled nid0 = (Inr (NilPtr, 0), emptyCache) \<and>
   GetSubtree Live root0 nid0 10 emptyCache =
     (Inr \<lparr>Root = \<lparr>Index = InvalidSubtreeIndex, Full = False, Valid = True\<rparr>, Entries = []\<rparr>,
      emptyCache) \<and>
   GetPath Live root0 (Path nid0) (BitDepth nid0) emptyCache =
     (Inr \<lparr>Root = \<lparr>Index = InvalidSubtreeIndex, Full = False, Valid = True\<rparr>, Entries = []\<rparr>,
      emptyCache) \<and>
   GetSubtree Canceled root0 nid0 10 emptyCache =
     (Inl (Wrap ErrCanceled ''urkel: failed to get subtree''), emptyCache) \<and>
   GetPath Canceled root0 (Path nid0) (BitDepth nid0) emptyCache =
     (Inl (Wrap ErrCanceled ''urkel: failed to get path''), emptyCache)"
proof -
  have h1: "Equal root0 (syncRoot emptyCache)" by (simp add: Equal_def emptyCache_def)
  have h2: "IsClean (pendingRoot emptyCache)" by (simp add: emptyCache_def)
  show ?thesis
    using h1 h2
      absent_root_encoding [OF h1 h2 emptyCache_derefNodeID nid0_Split nid0_right, of Live 10]
      absent_root_encoding [OF h1 h2 emptyCache_derefNodeID nid0_Split nid0_right, of Canceled 10]
    by (simp add: emptyCache_derefNodeID)
qed

text \<open>
  C1 as stated fails: on the empty tree, under the matching clean root, the recursion
  gives a root pointer that is valid, and both calls return a proof, not
  \<open>ErrInvalidRoot\<close>.
\<close>

theorem absent_root_counterexample:
  "Equal root0 (syncRoot emptyCache) \<and> IsClean (pendingRoot emptyCache) \<and>
   fst (doGetSubtree Live (pendingRoot emptyCache) 0 [] emptySubtree 0 10 False emptyCache) =
     Inr (\<lparr>Index = InvalidSubtreeIndex, Full = False, Valid = True\<rparr>, emptySubtree) \<and>
   fst (GetSubtree Live root0 nid0 10 emptyCache) =
     Inr \<lparr>Root = \<lparr>Index = InvalidSubtreeIndex, Full = False, Valid = True\<rparr>, Entries = []\<rparr> \<and>
   fst (GetPath Live root0 key0 0 emptyCache) =
     Inr \<lparr>Root = \<lparr>Index = InvalidSubtreeIndex, Full = False, Valid = True\<rparr>, Entries = []\<rparr>"
  by (simp add: emptyCache_def root0_def nid0_def key0_def GetSubtree_def GetPath_def Equal_def
      derefNodeID_def walkNodeID.simps Split_def BitLength_def GetBit_def doGetSubtree.simps
      doGetPath.simps emptySubtree_def zeroPointer_def)

text \<open>
  C3, as amended.  Under a context that is done, with the matching clean root, once
  \<open>derefNodeID\<close> has found the pointer, the first step of the recursion returns the
  error of the context and \<open>GetSubtree\<close> and \<open>GetPath\<close> return it wrapped, not as
  \<open>ErrNodeNotFound\<close>.  \<open>GetNode\<close> never returns the error of the context.
\<close>

theorem cancellation_surfaced:
  assumes "Err ctx = Some e" and "Equal root (syncRoot c)" and "IsClean (pendingRoot c)"
    and "derefNodeID c ctx nid = (Inr (subtreeRoot, bd), c1)"
    and "Split (Path nid) bd (BitLength (Path nid)) = Inr (path, sfx)"
    and "(if Path nid \<noteq> [] then GetBit (Path nid) bd else Inr False) = Inr right"
  shows "GetSubtree ctx root nid maxDepth c = (Inl (Wrap e ''urkel: failed to get subtree''), c1)
       \<and> GetPath ctx root (Path nid) (BitDepth nid) c
           = (Inl (Wrap e ''urkel: failed to get path''), c1)
       \<and> fst (GetNode ctx root nid' c') \<noteq> Inl e"
proof -
  have "e = ErrCanceled \<or> e = ErrDeadlineExceeded"
    using assms(1) by (cases ctx) auto
  then have "fst (GetNode ctx root nid' c') \<noteq> Inl e"
    using GetNode_errors [of ctx root nid' c' e] by auto
  then show ?thesis
    using assms
    by (simp add: GetSubtree_def GetPath_def doGetSubtree_cancelled doGetPath_cancelled ID_eta)
qed

theorem cancellation_surfaced_witness:
  "Err Canceled = Some ErrCanceled \<and> Equal root0 (syncRoot leafCache) \<and>
   IsClean (pendingRoot leafCache) \<and>
   derefNodeID leafCache Canceled nid0 = (Inr (leaf0, 0), leafCache) \<and>
   GetSubtree Canceled root0 nid0 10 leafCache
     = (Inl (Wrap ErrCanceled ''urkel: failed to get subtree''), leafCache) \<and>
   GetPath Canceled root0 (Path nid0) (BitDepth nid0) leafCache
     = (Inl (Wrap ErrCanceled ''urkel: failed to get path''), leafCache) \<and>
   fst (GetNode Canceled root0 nid0 leafCache) \<noteq> Inl ErrCanceled"
proof -
  have h1: "Err Canceled = Some ErrCanceled" by simp
  have h2: "Equal root0 (syncRoot leafCache)" by (simp add: Equal_def leafCache_def)
  have h3: "IsClean (pendingRoot leafCache)" by (simp add: leafCache_def leaf0_def)
  show ?thesis
    using h2 h3
      cancellation_surfaced [OF h1 h2 h3 leafCache_derefNodeID nid0_Split nid0_right,
        of 10 nid0 leafCache]
    by (simp add: leafCache_derefNodeID)
qed

text \<open>
  C3 as stated fails for \<open>GetNode\<close>: under a cancelled context the fetch of the node
  fails with the cancellation error and \<open>GetNode\<close> answers \<open>ErrNodeNotFound\<close>; when the
  node is resident, \<open>GetNode\<close> returns it, the cancellation going unnoticed.
\<close>

theorem cancellation_counterexample:
  "Err Canceled = Some ErrCanceled \<and>
   fst (derefNodePtr coldCache Canceled nid0 (pendingRoot coldCache) None) = Inl ErrCanceled \<and>
   fst (GetNode Canceled root0 nid0 coldCache) = Inl ErrNodeNotFound \<and>
   fst (GetNode Canceled root0 nid0 leafCache) = Inr (FullLeafNode key0 ''v0'')"
  by (simp add: coldCache_def leafCache_def leaf0_def root0_def nid0_def GetNode_def Equal_def
      derefNodeID_def walkNodeID.simps)

subsection \<open>The concrete scenario\<close>

text \<open>
  C9.  On the tree whose only leaf has the key "0" and the value "v0" (committed under
  the tracked root, the leaf resident), \<open>GetSubtree(root, {Path: [], BitDepth: 0}, 10)\<close>
  succeeds: the proof has exactly one entry, that leaf as a full node with the value
  "v0", and its root pointer is valid, full and refers to index 0, the index of that
  entry.  The cache is left as it was.
\<close>

theorem single_leaf_scenario:
  "GetSubtree Live root \<lparr>Path = [], BitDepth = 0\<rparr> 10
       \<lparr>syncRoot = root, pendingRoot = Pointer True h (LeafNode key0 ''v0''),
        resident = {h}, fetch = f\<rparr> =
     (Inr \<lparr>Root = \<lparr>Index = 0, Full = True, Valid = True\<rparr>,
           Entries = [FullNode (FullLeafNode key0 ''v0'')]\<rparr>,
      \<lparr>syncRoot = root, pendingRoot = Pointer True h (LeafNode key0 ''v0''),
       resident = {h}, fetch = f\<rparr>)"
  by (simp add: run_defs)

subsection \<open>The recursion of GetSubtree\<close>



text \<open>
  C8.  When \<open>doGetSubtree\<close> meets an internal node above the depth bound and succeeds,
  it has recursed into the colocated leaf at the same recursion depth, then into the left
  and into the right child at \<open>depth + 1\<close>, each run starting from the proof and the cache
  the run before has left; the three pointers are stored in the summary, which is appended
  after the entries of the children, and the returned pointer carries the index of the
  summary.
\<close>

theorem summary_recursion:
  assumes "doGetSubtree ctx ptr bitDepth path st depth maxDepth right c = (Inr (p, st'), c')"
    and "derefNodePtr c ctx \<lparr>Path = AppendBit path bitDepth right, BitDepth = bitDepth + 1\<rparr> ptr None
           = (Inr (Some (InternalNode lbl len lf l r)), c0)"
    and "depth < maxDepth"
    and "newPath = Merge (Merge path bitDepth lbl len) bitDepth lbl len"
  shows "\<exists>pl st1 c1 pL st2 c2 pR st3.
           doGetSubtree ctx lf (bitDepth + len) newPath st depth maxDepth False c0 = (Inr (pl, st1), c1)
         \<and> doGetSubtree ctx l (bitDepth + len) newPath st1 (depth + 1) maxDepth False c1 = (Inr (pL, st2), c2)
         \<and> doGetSubtree ctx r (bitDepth + len) newPath st2 (depth + 1) maxDepth True c2 = (Inr (pR, st3), c')
         \<and> st' = st3\<lparr>Entries := Entries st3 @
               [Summary \<lparr>sumLabel = lbl, sumLabelBitLength = len, sumLeafNode = pl,
                         sumLeft = pL, sumRight = pR\<rparr>]\<rparr>
         \<and> p = \<lparr>Index = length (Entries st3), Full = False, Valid = True\<rparr>"
  using assms(1)
proof (cases rule: doGetSubtree_InrE)
  case absent
  with assms(2) show ?thesis by simp
next
  case (full nd)
  with assms(2,3) show ?thesis by auto
next
  case (summary lbl' len' lf' l' r' c0' newPath' pl st1 c1 pL st2 c2 pR st3)
  with assms(2,4) have "lbl' = lbl" "len' = len" "lf' = lf" "l' = l" "r' = r" "c0' = c0" "newPath' = newPath"
    by simp_all
  with summary show ?thesis by blast
qed

theorem summary_recursion_witness:
  "doGetSubtree Live fork 0 [] emptySubtree 0 10 False forkCache
     = (Inr (\<lparr>Index = 2, Full = False, Valid = True\<rparr>, forkProof\<lparr>Root := zeroPointer\<rparr>), forkCache) \<and>
   derefNodePtr forkCache Live \<lparr>Path = AppendBit [] 0 False, BitDepth = 0 + 1\<rparr> fork None
     = (Inr (Some (InternalNode [False] 1 NilPtr leaf0 leafP)), forkCache) \<and>
   (0::nat) < 10 \<and>
   (\<exists>pl st1 c1 pL st2 c2 pR st3.
       doGetSubtree Live NilPtr (0 + 1) (Merge (Merge [] 0 [False] 1) 0 [False] 1) emptySubtree 0 10 False forkCache = (Inr (pl, st1), c1)
     \<and> doGetSubtree Live leaf0 (0 + 1) (Merge (Merge [] 0 [False] 1) 0 [False] 1) st1 (0 + 1) 10 False c1 = (Inr (pL, st2), c2)
     \<and> doGetSubtree Live leafP (0 + 1) (Merge (Merge [] 0 [False] 1) 0 [False] 1) st2 (0 + 1) 10 True c2 = (Inr (pR, st3), forkCache)
     \<and> forkProof\<lparr>Root := zeroPointer\<rparr> = st3\<lparr>Entries := Entries st3 @
           [Summary \<lparr>sumLabel = [False], sumLabelBitLength = 1, sumLeafNode = pl,
                     sumLeft = pL, sumRight = pR\<rparr>]\<rparr>
     \<and> \<lparr>Index = 2, Full = False, Valid = True\<rparr> = \<lparr>Index = length (Entries st3), Full = False, Valid = True\<rparr>)"
proof -
  have h3: "(0::nat) < 10" by simp
  show ?thesis
    using summary_recursion [OF forkCache_doGetSubtree forkCache_derefNodePtr h3 refl]
      forkCache_doGetSubtree forkCache_derefNodePtr
    by simp
qed

subsection \<open>Leaves and paths\<close>






subsection \<open>The order of the entries\<close>

text \<open>
  C10.  In every proof returned by \<open>GetSubtree\<close> or \<open>GetPath\<close> the entries are in
  post-order: each of the three pointers of a summary that carries a real index
  (valid, and not the sentinel) refers to an entry before the summary.  The root
  pointer refers to an entry of the proof as well.
\<close>

theorem postorder_indices:
  "(GetSubtree ctx root nid maxDepth c = (Inr st, c') \<longrightarrow>
      postOrder (Entries st) \<and> ptrBefore (length (Entries st)) (Root st)) \<and>
   (GetPath ctx root key startBitDepth c = (Inr st, c') \<longrightarrow>
      postOrder (Entries st) \<and> ptrBefore (length (Entries st)) (Root st))"
proof (intro conjI impI)
  assume "GetSubtree ctx root nid maxDepth c = (Inr st, c')"
  then obtain subtreeRoot bd c1 path right rootPtr st0 where
    run: "doGetSubtree ctx subtreeRoot bd path emptySubtree 0 maxDepth right c1 = (Inr (rootPtr, st0), c')"
    and st: "st = st0\<lparr>Root := rootPtr\<rparr>"
    by (rule GetSubtree_InrE)
  from doGetSubtree_inv [OF run] st
  show "postOrder (Entries st)" "ptrBefore (length (Entries st)) (Root st)"
    by (simp_all add: emptySubtree_def postOrder_Nil)
next
  assume "GetPath ctx root key startBitDepth c = (Inr st, c')"
  then obtain subtreeRoot bd c1 path right rootPtr st0 where
    run: "doGetPath ctx subtreeRoot bd path (Some key) emptySubtree right c1 = (Inr (rootPtr, st0), c')"
    and st: "st = st0\<lparr>Root := rootPtr\<rparr>"
    by (rule GetPath_InrE)
  from doGetPath_inv [OF run] st
  show "postOrder (Entries st)" "ptrBefore (length (Entries st)) (Root st)"
    by (simp_all add: emptySubtree_def postOrder_Nil)
qed

theorem postorder_indices_witness:
  "GetSubtree Live rootF nid0 10 forkCache = (Inr forkProof, forkCache) \<and>
   GetPath Live rootF key0 0 forkCache = (Inr forkProof, forkCache) \<and>
   postOrder (Entries forkProof) \<and> ptrBefore (length (Entries forkProof)) (Root forkProof)"
  using postorder_indices [of Live rootF nid0 10 forkCache forkProof forkCache key0 0]
  by (simp add: forkCache_GetSubtree forkCache_GetPath)

end
